theory Spec2Isabelle
  imports Main
begin

section \<open>The posts service of main.py\<close>

text \<open>
  The service keeps one table, \<^verbatim>\<open>posts\<close>, behind SQLAlchemy, and answers five routes
  over it plus a greeting. The handlers are embedded one to one. The database itself
  is not part of the program, so the table and the session that fronts it are modelled
  explicitly: the committed rows, the unit of work that a session has not flushed yet,
  and the outcome of every round trip to the database, which may be a
  \<^verbatim>\<open>SQLAlchemyError\<close>.
\<close>

subsection \<open>Data\<close>

text \<open>
  \<^verbatim>\<open>class PostModel(Base)\<close>: a row of \<^verbatim>\<open>posts\<close>. The column \<^verbatim>\<open>id\<close> is
  called \<open>id_pk\<close> here, since \<open>id\<close> is the identity function of HOL.
\<close>

record PostModel =
  id_pk :: int
  title :: string
  content :: string

text \<open>\<^verbatim>\<open>class Post(BaseModel)\<close>: the request body of create and update.\<close>

record Post =
  title :: string
  content :: string

text \<open>
  The table as the database holds it: the rows, in some storage order, and the next
  value of the sequence behind the integer primary key.
\<close>

record Table =
  rows :: "PostModel list"
  serial :: int

text \<open>
  The statements a session issues when it flushes: the INSERT of an added instance,
  the UPDATE of a modified one, the DELETE of one marked for deletion.
\<close>

datatype statement =
    Insert string string
  | Update int string string
  | Delete int

text \<open>
  A session of \<^verbatim>\<open>SessionLocal\<close> (autocommit and autoflush both off): the table it
  is bound to, the unit of work not yet flushed, and what the coming round trips to
  the database will do: \<open>None\<close> when the call goes through, \<open>Some msg\<close> when it
  raises \<^verbatim>\<open>SQLAlchemyError(msg)\<close>. A schedule that has run out means no further
  failure.
\<close>

record Session =
  store :: Table
  pending :: "statement list"
  faults :: "string option list"

datatype SQLAlchemyError = SQLAlchemyError string

datatype HTTPException = HTTPException (status_code: nat) (detail: string)

type_synonym 'a response = "HTTPException + 'a"

text \<open>\<^verbatim>\<open>str(e)\<close> of a database error: its message.\<close>

fun str :: "SQLAlchemyError \<Rightarrow> string" where
  "str (SQLAlchemyError msg) = msg"

subsection \<open>The database and the session\<close>

text \<open>
  The model of what lies below the handlers rests on these readings of SQLAlchemy and
  of the database:
  \<^item> requests are served one at a time, each in a session of its own;
  \<^item> the primary key of a new row comes from a sequence that only moves forward;
  \<^item> \<^verbatim>\<open>query\<close>, \<^verbatim>\<open>commit\<close> and \<^verbatim>\<open>refresh\<close> each make one round trip, and
    any of them may raise; \<^verbatim>\<open>add\<close>, \<^verbatim>\<open>delete\<close>, attribute assignment,
    \<^verbatim>\<open>rollback\<close> and \<^verbatim>\<open>close\<close> work on the session alone and do not raise;
  \<^item> a commit that raises has written nothing, and a commit that returns has written
    everything that was pending.
\<close>

text \<open>
  What each statement does to the table. An INSERT takes the next value of the
  sequence as the primary key; an UPDATE and a DELETE address rows by primary key.
\<close>

fun execute :: "statement \<Rightarrow> Table \<Rightarrow> Table" where
  "execute (Insert t c) tb =
     tb\<lparr>rows := rows tb @ [\<lparr>id_pk = serial tb, title = t, content = c\<rparr>],
        serial := serial tb + 1\<rparr>"
| "execute (Update i t c) tb =
     tb\<lparr>rows := map (\<lambda>r. if id_pk r = i
                          then r\<lparr>PostModel.title := t, PostModel.content := c\<rparr> else r)
                  (rows tb)\<rparr>"
| "execute (Delete i) tb = tb\<lparr>rows := filter (\<lambda>r. id_pk r \<noteq> i) (rows tb)\<rparr>"

text \<open>The primary key that a statement generates, if it is an INSERT.\<close>

fun generated_key :: "statement \<Rightarrow> Table \<Rightarrow> int list" where
  "generated_key (Insert t c) tb = [serial tb]"
| "generated_key (Update i t c) tb = []"
| "generated_key (Delete i) tb = []"

text \<open>
  Flushing a unit of work runs its statements in order and hands back the keys
  generated on the way (SQLAlchemy stores them in the added instances).
\<close>

fun flush :: "statement list \<Rightarrow> Table \<Rightarrow> int list \<times> Table" where
  "flush [] tb = ([], tb)"
| "flush (s # ss) tb =
     (let (ks, tb') = flush ss (execute s tb) in (generated_key s tb @ ks, tb'))"

text \<open>\<^verbatim>\<open>SessionLocal()\<close> in \<^verbatim>\<open>get_db\<close>: a fresh session, nothing pending.\<close>

definition SessionLocal :: "Table \<Rightarrow> string option list \<Rightarrow> Session" where
  "SessionLocal t fs = \<lparr>store = t, pending = [], faults = fs\<rparr>"

text \<open>
  \<^verbatim>\<open>db.close()\<close> in the \<^verbatim>\<open>finally\<close> of \<^verbatim>\<open>get_db\<close>: whatever is
  still pending is dropped, and the table is what the next request finds.
\<close>

definition db_close :: "Session \<Rightarrow> Table" where
  "db_close db = store db"

text \<open>One round trip to the database: the next entry of the schedule decides.\<close>

definition round_trip :: "Session \<Rightarrow> SQLAlchemyError option \<times> Session" where
  "round_trip db =
     (case faults db of
        [] \<Rightarrow> (None, db)
      | None # fs \<Rightarrow> (None, db\<lparr>faults := fs\<rparr>)
      | Some msg # fs \<Rightarrow> (Some (SQLAlchemyError msg), db\<lparr>faults := fs\<rparr>))"

text \<open>\<^verbatim>\<open>db.query(PostModel).all()\<close>\<close>

definition query_all :: "Session \<Rightarrow> (SQLAlchemyError + PostModel list) \<times> Session" where
  "query_all db =
     (case round_trip db of
        (Some e, db') \<Rightarrow> (Inl e, db')
      | (None, db') \<Rightarrow> (Inr (rows (store db')), db'))"

text \<open>\<^verbatim>\<open>db.query(PostModel).filter(PostModel.id == post_id).first()\<close>\<close>

definition query_first :: "int \<Rightarrow> Session \<Rightarrow> (SQLAlchemyError + PostModel option) \<times> Session" where
  "query_first post_id db =
     (case round_trip db of
        (Some e, db') \<Rightarrow> (Inl e, db')
      | (None, db') \<Rightarrow> (Inr (find (\<lambda>r. id_pk r = post_id) (rows (store db'))), db'))"

text \<open>
  \<^verbatim>\<open>db.add(PostModel(title=..., content=...))\<close>: the instance has no key yet and
  waits for the flush.
\<close>

definition db_add :: "string \<Rightarrow> string \<Rightarrow> Session \<Rightarrow> Session" where
  "db_add t c db = db\<lparr>pending := pending db @ [Insert t c]\<rparr>"

text \<open>
  \<^verbatim>\<open>db_post.title = ...; db_post.content = ...\<close> on an instance the session
  loaded: the session records the change for the flush.
\<close>

definition db_assign :: "PostModel \<Rightarrow> string \<Rightarrow> string \<Rightarrow> Session \<Rightarrow> Session" where
  "db_assign db_post t c db = db\<lparr>pending := pending db @ [Update (id_pk db_post) t c]\<rparr>"

text \<open>\<^verbatim>\<open>db.delete(db_post)\<close>\<close>

definition db_delete :: "PostModel \<Rightarrow> Session \<Rightarrow> Session" where
  "db_delete db_post db = db\<lparr>pending := pending db @ [Delete (id_pk db_post)]\<rparr>"

text \<open>
  \<^verbatim>\<open>db.commit()\<close>: flush and commit in one round trip. When it raises nothing has
  reached the table, and the unit of work stays pending until the rollback.
\<close>

definition db_commit :: "Session \<Rightarrow> (SQLAlchemyError + int list) \<times> Session" where
  "db_commit db =
     (case round_trip db of
        (Some e, db') \<Rightarrow> (Inl e, db')
      | (None, db') \<Rightarrow>
          (let (ks, tb) = flush (pending db') (store db')
           in (Inr ks, db'\<lparr>store := tb, pending := []\<rparr>)))"

text \<open>\<^verbatim>\<open>db.rollback()\<close>: the unit of work is discarded.\<close>

definition db_rollback :: "Session \<Rightarrow> Session" where
  "db_rollback db = db\<lparr>pending := []\<rparr>"

text \<open>
  \<^verbatim>\<open>db.refresh(instance)\<close>: the row is read again by the instance's primary key.
  The instance is given by its key: the keys the flush generated for an added
  instance, the key it was loaded with for a queried one. SQLAlchemy raises
  \<^verbatim>\<open>InvalidRequestError\<close>, a \<^verbatim>\<open>SQLAlchemyError\<close>, for an instance that never
  got a key and for one whose row is gone.
\<close>

definition db_refresh :: "int list \<Rightarrow> Session \<Rightarrow> (SQLAlchemyError + PostModel) \<times> Session" where
  "db_refresh key db =
     (case key of
        [] \<Rightarrow> (Inl (SQLAlchemyError ''Instance is not persistent within this Session''), db)
      | k # ks \<Rightarrow>
          (case round_trip db of
             (Some e, db') \<Rightarrow> (Inl e, db')
           | (None, db') \<Rightarrow>
               (case find (\<lambda>r. id_pk r = k) (rows (store db')) of
                  None \<Rightarrow> (Inl (SQLAlchemyError ''Could not refresh instance''), db')
                | Some r \<Rightarrow> (Inr r, db'))))"

subsection \<open>The route handlers\<close>

text \<open>
  Each handler follows its source line by line. An \<^verbatim>\<open>HTTPException\<close> raised inside
  the \<^verbatim>\<open>try\<close> is not a \<^verbatim>\<open>SQLAlchemyError\<close>, so the 404 leaves the handler
  without passing through the \<^verbatim>\<open>except\<close> clause. The object a handler returns is
  the row as the session last loaded it; \<^verbatim>\<open>delete_post\<close> returns the instance its
  query loaded.

  \<^verbatim>\<open>read_root\<close> takes no session.
\<close>

definition read_root :: "(string \<times> string) list response" where
  "read_root = Inr [(''message'', ''Bienvenido a la API de Articulos'')]"

definition get_posts :: "Session \<Rightarrow> PostModel list response \<times> Session" where
  "get_posts db =
     (case query_all db of
        (Inr posts, db1) \<Rightarrow> (Inr posts, db1)
      | (Inl e, db1) \<Rightarrow> (Inl (HTTPException 500 (str e)), db1))"

definition get_post :: "int \<Rightarrow> Session \<Rightarrow> PostModel response \<times> Session" where
  "get_post post_id db =
     (case query_first post_id db of
        (Inr (Some post), db1) \<Rightarrow> (Inr post, db1)
      | (Inr None, db1) \<Rightarrow> (Inl (HTTPException 404 ''Post no encontrado''), db1)
      | (Inl e, db1) \<Rightarrow> (Inl (HTTPException 500 (str e)), db1))"

definition create_post :: "Post \<Rightarrow> Session \<Rightarrow> PostModel response \<times> Session" where
  "create_post post db =
     (let db1 = db_add (Post.title post) (Post.content post) db in
      case db_commit db1 of
        (Inl e, db2) \<Rightarrow> (Inl (HTTPException 500 (str e)), db_rollback db2)
      | (Inr keys, db2) \<Rightarrow>
          (case db_refresh keys db2 of
             (Inl e, db3) \<Rightarrow> (Inl (HTTPException 500 (str e)), db_rollback db3)
           | (Inr refreshed, db3) \<Rightarrow> (Inr refreshed, db3)))"

definition update_post :: "int \<Rightarrow> Post \<Rightarrow> Session \<Rightarrow> PostModel response \<times> Session" where
  "update_post post_id post db =
     (case query_first post_id db of
        (Inl e, db1) \<Rightarrow> (Inl (HTTPException 500 (str e)), db_rollback db1)
      | (Inr None, db1) \<Rightarrow> (Inl (HTTPException 404 ''Post no encontrado''), db1)
      | (Inr (Some db_post), db1) \<Rightarrow>
          (let db2 = db_assign db_post (Post.title post) (Post.content post) db1 in
           case db_commit db2 of
             (Inl e, db3) \<Rightarrow> (Inl (HTTPException 500 (str e)), db_rollback db3)
           | (Inr ks, db3) \<Rightarrow>
               (case db_refresh [id_pk db_post] db3 of
                  (Inl e, db4) \<Rightarrow> (Inl (HTTPException 500 (str e)), db_rollback db4)
                | (Inr refreshed, db4) \<Rightarrow> (Inr refreshed, db4))))"

definition delete_post :: "int \<Rightarrow> Session \<Rightarrow> PostModel response \<times> Session" where
  "delete_post post_id db =
     (case query_first post_id db of
        (Inl e, db1) \<Rightarrow> (Inl (HTTPException 500 (str e)), db_rollback db1)
      | (Inr None, db1) \<Rightarrow> (Inl (HTTPException 404 ''Post no encontrado''), db1)
      | (Inr (Some db_post), db1) \<Rightarrow>
          (let db2 = db_delete db_post db1 in
           case db_commit db2 of
             (Inl e, db3) \<Rightarrow> (Inl (HTTPException 500 (str e)), db_rollback db3)
           | (Inr ks, db3) \<Rightarrow> (Inr db_post, db3)))"

subsection \<open>Requests against the application\<close>

text \<open>The routes registered on \<^verbatim>\<open>app\<close>, and the bodies they answer with.\<close>

datatype request =
    GET_root
  | GET_posts
  | GET_post int
  | POST_posts Post
  | PUT_post int Post
  | DELETE_post int

datatype body =
    Message "(string \<times> string) list"
  | Row PostModel
  | Rows "PostModel list"

fun answer :: "('a \<Rightarrow> body) \<Rightarrow> 'a response \<Rightarrow> body response" where
  "answer f (Inl e) = Inl e"
| "answer f (Inr x) = Inr (f x)"

text \<open>
  One request: the routes that depend on \<^verbatim>\<open>get_db\<close> get a fresh session, which
  is closed when the handler is left, by return or by exception.
\<close>

fun serve :: "request \<Rightarrow> string option list \<Rightarrow> Table \<Rightarrow> body response \<times> Table" where
  "serve GET_root fs t = (answer Message read_root, t)"
| "serve GET_posts fs t =
     (let (r, db) = get_posts (SessionLocal t fs) in (answer Rows r, db_close db))"
| "serve (GET_post post_id) fs t =
     (let (r, db) = get_post post_id (SessionLocal t fs) in (answer Row r, db_close db))"
| "serve (POST_posts post) fs t =
     (let (r, db) = create_post post (SessionLocal t fs) in (answer Row r, db_close db))"
| "serve (PUT_post post_id post) fs t =
     (let (r, db) = update_post post_id post (SessionLocal t fs)
      in (answer Row r, db_close db))"
| "serve (DELETE_post post_id) fs t =
     (let (r, db) = delete_post post_id (SessionLocal t fs) in (answer Row r, db_close db))"

text \<open>A history: requests served one after the other, each with its own schedule.\<close>

fun run :: "(request \<times> string option list) list \<Rightarrow> Table \<Rightarrow> body response list \<times> Table" where
  "run [] t = ([], t)"
| "run ((rq, fs) # rest) t =
     (let (r, t1) = serve rq fs t; (rs, t2) = run rest t1 in (r # rs, t2))"

text \<open>
  \<^verbatim>\<open>Base.metadata.create_all\<close> on a database that has no \<^verbatim>\<open>posts\<close> table yet.
\<close>

definition create_all :: Table where
  "create_all = \<lparr>rows = [], serial = 1\<rparr>"

subsection \<open>Notions used in the statements\<close>

text \<open>
  What the database guarantees of a table with an integer primary key fed by a
  sequence: no two rows share a key, and the sequence is ahead of every key in use.
\<close>

definition wf_table :: "Table \<Rightarrow> bool" where
  "wf_table t \<longleftrightarrow>
     distinct (map id_pk (rows t)) \<and> list_all (\<lambda>r. id_pk r < serial t) (rows t)"

text \<open>
  The message of the error, if any, that a schedule raises within the first \<open>n\<close>
  round trips; the first error ends the handler, so later entries are never reached.
\<close>

fun raised :: "nat \<Rightarrow> string option list \<Rightarrow> string option" where
  "raised 0 fs = None"
| "raised (Suc n) [] = None"
| "raised (Suc n) (None # fs) = raised n fs"
| "raised (Suc n) (Some msg # fs) = Some msg"

text \<open>The first \<open>n\<close> round trips of a schedule go through.\<close>

definition goes_through :: "nat \<Rightarrow> string option list \<Rightarrow> bool" where
  "goes_through n fs \<longleftrightarrow> raised n fs = None"


text \<open>
  The posts "created and not deleted", in the words of the specification: a post is
  created on POST with an id assigned by the store, mutated in place by PUT (title and
  content only), destroyed by DELETE, and read-only otherwise. A write has happened
  when the store has committed it, whatever the client is told afterwards; so a create
  counts once its commit has gone through, and an update or a delete once its lookup
  and its commit have. The state is the set of live posts and the next id the store
  will assign.
\<close>

fun spec_step ::
  "request \<times> string option list \<Rightarrow> PostModel set \<times> int \<Rightarrow> PostModel set \<times> int" where
  "spec_step (POST_posts post, fs) (S, n) =
     (if goes_through 1 fs
      then (insert \<lparr>id_pk = n, title = Post.title post, content = Post.content post\<rparr> S,
            n + 1)
      else (S, n))"
| "spec_step (PUT_post post_id post, fs) (S, n) =
     (if goes_through 2 fs
      then ((\<lambda>x. if id_pk x = post_id
                 then x\<lparr>PostModel.title := Post.title post,
                        PostModel.content := Post.content post\<rparr>
                 else x) ` S, n)
      else (S, n))"
| "spec_step (DELETE_post post_id, fs) (S, n) =
     (if goes_through 2 fs then (Set.filter (\<lambda>x. id_pk x \<noteq> post_id) S, n) else (S, n))"
| "spec_step (GET_root, fs) (S, n) = (S, n)"
| "spec_step (GET_posts, fs) (S, n) = (S, n)"
| "spec_step (GET_post post_id, fs) (S, n) = (S, n)"

text \<open>The live posts after a history that starts with no post, the first id being 1.\<close>

definition spec_live :: "(request \<times> string option list) list \<Rightarrow> PostModel set" where
  "spec_live history = fst (fold spec_step history ({}, 1))"

section \<open>Properties\<close>

subsection \<open>Looking rows up by key\<close>

lemmas session_defs = SessionLocal_def db_close_def round_trip_def query_all_def
  query_first_def db_add_def db_assign_def db_delete_def db_commit_def db_rollback_def
  db_refresh_def

lemma find_beyond:
  "list_all (\<lambda>r. id_pk r < k) xs \<Longrightarrow>
     find (\<lambda>r. id_pk r = k) (xs @ ys) = find (\<lambda>r. id_pk r = k) ys"
  by (induction xs) auto

lemma find_None_iff_ids: "find (\<lambda>r. id_pk r = k) xs = None \<longleftrightarrow> k \<notin> id_pk ` set xs"
  by (induction xs) auto

lemma find_Some_id: "find (\<lambda>r. id_pk r = k) xs = Some r \<Longrightarrow> id_pk r = k \<and> r \<in> set xs"
  by (induction xs) (auto split: if_splits)

lemma find_unique:
  "distinct (map id_pk xs) \<Longrightarrow> r \<in> set xs \<Longrightarrow> find (\<lambda>x. id_pk x = id_pk r) xs = Some r"
  by (induction xs) (auto simp: image_iff)

lemma ids_after_update:
  "map id_pk (map (\<lambda>r. if id_pk r = i
                        then r\<lparr>PostModel.title := a, PostModel.content := b\<rparr> else r) xs)
     = map id_pk xs"
  by (induction xs) auto

lemma find_after_update:
  "find (\<lambda>r. id_pk r = i) xs = Some r \<Longrightarrow>
   find (\<lambda>r. id_pk r = i)
     (map (\<lambda>r. if id_pk r = i
                then r\<lparr>PostModel.title := a, PostModel.content := b\<rparr> else r) xs)
     = Some (r\<lparr>PostModel.title := a, PostModel.content := b\<rparr>)"
  by (induction xs) (auto split: if_splits)

subsection \<open>The table stays well formed\<close>

lemma wf_create_all: "wf_table create_all"
  by (simp add: wf_table_def create_all_def)

lemma wf_execute: "wf_table t \<Longrightarrow> wf_table (execute s t)"
proof (cases s)
  case (Insert a b)
  assume "wf_table t"
  then show ?thesis using Insert
    by (auto simp: wf_table_def list_all_iff)
next
  case (Update i a b)
  assume "wf_table t"
  then show ?thesis using Update
    by (auto simp: wf_table_def list_all_iff ids_after_update simp del: map_map)
next
  case (Delete i)
  assume "wf_table t"
  then show ?thesis using Delete
    by (auto simp: wf_table_def list_all_iff distinct_map_filter)
qed

subsection \<open>What each handler leaves in the table\<close>

text \<open>
  A handler makes at most three round trips, so a schedule matters only through its
  first entries.
\<close>

lemma schedule_cases [case_names empty one ok_ok ok_fail fail]:
  obtains "fs = []" | "fs = [None]" | fs' where "fs = None # None # fs'"
  | msg fs' where "fs = None # Some msg # fs'" | msg fs' where "fs = Some msg # fs'"
proof (cases fs)
  case Nil
  then show ?thesis using that by blast
next
  case (Cons f fs1)
  show ?thesis
  proof (cases f)
    case (Some m)
    then show ?thesis using Cons that by blast
  next
    case None
    show ?thesis
    proof (cases fs1)
      case Nil
      then show ?thesis using Cons None that by blast
    next
      case (Cons g fs2)
      then show ?thesis using \<open>fs = f # fs1\<close> None that by (cases g) blast+
    qed
  qed
qed

lemmas schedule_simps = goes_through_def numeral_2_eq_2 numeral_3_eq_3

lemma get_posts_table: "db_close (snd (get_posts db)) = db_close db"
  by (simp add: get_posts_def query_all_def db_close_def round_trip_def
      split: list.splits option.splits)

lemma get_post_table: "db_close (snd (get_post post_id db)) = db_close db"
  by (simp add: get_post_def query_first_def db_close_def round_trip_def
      split: list.splits option.splits)

lemma create_post_table:
  "db_close (snd (create_post post (SessionLocal t fs))) =
     (if goes_through 1 fs then execute (Insert (Post.title post) (Post.content post)) t
      else t)"
  by (cases fs rule: schedule_cases)
    (simp_all add: create_post_def session_defs schedule_simps
      split: list.splits option.splits prod.splits sum.splits)

lemma update_post_table:
  "db_close (snd (update_post post_id post (SessionLocal t fs))) =
     (if goes_through 2 fs \<and> post_id \<in> id_pk ` set (rows t)
      then execute (Update post_id (Post.title post) (Post.content post)) t else t)"
proof (cases "find (\<lambda>r. id_pk r = post_id) (rows t)")
  case None
  then have "post_id \<notin> id_pk ` set (rows t)"
    by (simp add: find_None_iff_ids)
  then show ?thesis using None
    by (cases fs rule: schedule_cases) (simp_all add: update_post_def session_defs)
next
  case (Some r)
  then have "id_pk r = post_id" "post_id \<in> id_pk ` set (rows t)"
    using find_Some_id[OF Some] by auto
  then show ?thesis using Some
    by (cases fs rule: schedule_cases)
      (simp_all add: update_post_def session_defs schedule_simps
        split: list.splits option.splits prod.splits sum.splits)
qed

lemma delete_post_table:
  "db_close (snd (delete_post post_id (SessionLocal t fs))) =
     (if goes_through 2 fs \<and> post_id \<in> id_pk ` set (rows t)
      then execute (Delete post_id) t else t)"
proof (cases "find (\<lambda>r. id_pk r = post_id) (rows t)")
  case None
  then have "post_id \<notin> id_pk ` set (rows t)"
    by (simp add: find_None_iff_ids)
  then show ?thesis using None
    by (cases fs rule: schedule_cases) (simp_all add: delete_post_def session_defs)
next
  case (Some r)
  then have "id_pk r = post_id" "post_id \<in> id_pk ` set (rows t)"
    using find_Some_id[OF Some] by auto
  then show ?thesis using Some
    by (cases fs rule: schedule_cases)
      (simp_all add: delete_post_def session_defs schedule_simps
        split: list.splits option.splits prod.splits sum.splits)
qed

lemma serve_table:
  "snd (serve rq fs t) = t \<or> (\<exists>s. snd (serve rq fs t) = execute s t)"
proof (cases rq)
  case GET_root
  then show ?thesis by simp
next
  case GET_posts
  then show ?thesis
    using get_posts_table[of "SessionLocal t fs"]
    by (simp add: split_beta SessionLocal_def db_close_def)
next
  case (GET_post i)
  then show ?thesis
    using get_post_table[of i "SessionLocal t fs"]
    by (simp add: split_beta SessionLocal_def db_close_def)
next
  case (POST_posts post)
  then show ?thesis
    using create_post_table[of post t fs] by (auto simp: split_beta simp del: execute.simps)
next
  case (PUT_post i post)
  then show ?thesis
    using update_post_table[of i post t fs] by (auto simp: split_beta simp del: execute.simps)
next
  case (DELETE_post i)
  then show ?thesis
    using delete_post_table[of i t fs] by (auto simp: split_beta simp del: execute.simps)
qed

lemma wf_serve: "wf_table t \<Longrightarrow> wf_table (snd (serve rq fs t))"
  using serve_table[of rq fs t] wf_execute by auto

lemma wf_run: "wf_table t \<Longrightarrow> wf_table (snd (run history t))"
proof (induction history arbitrary: t)
  case Nil
  then show ?case by simp
next
  case (Cons a history)
  obtain rq fs where a: "a = (rq, fs)" by (cases a)
  from Cons.prems have "wf_table (snd (serve rq fs t))" by (rule wf_serve)
  then have "wf_table (snd (run history (snd (serve rq fs t))))" by (rule Cons.IH)
  then show ?case by (simp add: a split_beta)
qed

subsection \<open>What each handler answers\<close>

lemma get_post_answer:
  "fst (get_post post_id (SessionLocal t fs)) =
     (case raised 1 fs of
        Some msg \<Rightarrow> Inl (HTTPException 500 msg)
      | None \<Rightarrow>
         (case find (\<lambda>r. id_pk r = post_id) (rows t) of
            None \<Rightarrow> Inl (HTTPException 404 ''Post no encontrado'')
          | Some r \<Rightarrow> Inr r))"
  by (cases fs rule: schedule_cases)
    (simp_all add: get_post_def session_defs schedule_simps split: option.splits)

lemma get_posts_answer:
  "fst (get_posts (SessionLocal t fs)) =
     (case raised 1 fs of
        Some msg \<Rightarrow> Inl (HTTPException 500 msg)
      | None \<Rightarrow> Inr (rows t))"
  by (cases fs rule: schedule_cases)
    (simp_all add: get_posts_def session_defs schedule_simps split: option.splits)

lemma update_post_answer_absent:
  "find (\<lambda>r. id_pk r = post_id) (rows t) = None \<Longrightarrow>
   fst (update_post post_id post (SessionLocal t fs)) =
     (case raised 1 fs of
        Some msg \<Rightarrow> Inl (HTTPException 500 msg)
      | None \<Rightarrow> Inl (HTTPException 404 ''Post no encontrado''))"
  by (cases fs rule: schedule_cases)
    (simp_all add: update_post_def session_defs schedule_simps)

lemma delete_post_answer_absent:
  "find (\<lambda>r. id_pk r = post_id) (rows t) = None \<Longrightarrow>
   fst (delete_post post_id (SessionLocal t fs)) =
     (case raised 1 fs of
        Some msg \<Rightarrow> Inl (HTTPException 500 msg)
      | None \<Rightarrow> Inl (HTTPException 404 ''Post no encontrado''))"
  by (cases fs rule: schedule_cases)
    (simp_all add: delete_post_def session_defs schedule_simps)

lemma update_post_answer_present:
  assumes "find (\<lambda>r. id_pk r = post_id) (rows t) = Some r"
  shows "fst (update_post post_id post (SessionLocal t fs)) =
     (case raised 3 fs of
        Some msg \<Rightarrow> Inl (HTTPException 500 msg)
      | None \<Rightarrow>
          Inr (r\<lparr>PostModel.title := Post.title post, PostModel.content := Post.content post\<rparr>))"
proof -
  have k: "id_pk r = post_id" using find_Some_id[OF assms] by simp
  note upd = find_after_update[OF assms, where a = "Post.title post" and b = "Post.content post"]
  show ?thesis
  proof (cases fs rule: schedule_cases)
    case (ok_ok fs')
    then show ?thesis using assms k upd
      by (cases fs' rule: schedule_cases)
        (simp_all add: update_post_def session_defs schedule_simps)
  qed (use assms k upd in \<open>simp_all add: update_post_def session_defs schedule_simps\<close>)
qed

lemma delete_post_answer_present:
  assumes "find (\<lambda>r. id_pk r = post_id) (rows t) = Some r"
  shows "fst (delete_post post_id (SessionLocal t fs)) =
     (case raised 2 fs of
        Some msg \<Rightarrow> Inl (HTTPException 500 msg)
      | None \<Rightarrow> Inr r)"
  using assms
  by (cases fs rule: schedule_cases)
    (simp_all add: delete_post_def session_defs schedule_simps)

lemma create_post_answer:
  "fst (create_post post (SessionLocal t fs)) =
     (case raised 2 fs of
        Some msg \<Rightarrow> Inl (HTTPException 500 msg)
      | None \<Rightarrow>
         (case find (\<lambda>r. id_pk r = serial t)
                 (rows t @ [\<lparr>id_pk = serial t, title = Post.title post,
                              content = Post.content post\<rparr>]) of
            None \<Rightarrow> Inl (HTTPException 500 ''Could not refresh instance'')
          | Some r \<Rightarrow> Inr r))"
  by (cases fs rule: schedule_cases)
    (simp_all add: create_post_def session_defs schedule_simps split: option.splits)

lemma create_post_answer_wf:
  assumes "wf_table t"
  shows "fst (create_post post (SessionLocal t fs)) =
     (case raised 2 fs of
        Some msg \<Rightarrow> Inl (HTTPException 500 msg)
      | None \<Rightarrow> Inr \<lparr>id_pk = serial t, title = Post.title post, content = Post.content post\<rparr>)"
proof -
  have below: "list_all (\<lambda>r. id_pk r < serial t) (rows t)"
    using assms by (simp add: wf_table_def)
  show ?thesis
    by (simp add: create_post_answer find_beyond[OF below] split: option.splits)
qed

lemma pending_after:
  "pending (snd (create_post post (SessionLocal t fs))) = []"
  "pending (snd (update_post post_id post (SessionLocal t fs))) = []"
  "pending (snd (delete_post post_id (SessionLocal t fs))) = []"
  by (cases fs rule: schedule_cases;
      simp add: create_post_def update_post_def delete_post_def session_defs
        split: list.splits option.splits prod.splits sum.splits)+

subsection \<open>Failures within a schedule\<close>

lemma raised_mono: "raised n fs = Some msg \<Longrightarrow> raised (Suc n) fs = Some msg"
  by (induction n fs rule: raised.induct) simp_all

subsection \<open>A history, step by step\<close>

text \<open>
  The table seen as the specification sees it: the set of its rows and the next id.
  Every request moves this view as \<open>spec_step\<close> says.
\<close>

lemma update_absent_image:
  "post_id \<notin> id_pk ` S \<Longrightarrow>
   (\<lambda>x. if id_pk x = post_id
         then x\<lparr>PostModel.title := a, PostModel.content := b\<rparr> else x) ` S = S"
  by (auto simp: image_iff)

lemma serve_step:
  "(set (rows (snd (serve rq fs t))), serial (snd (serve rq fs t)))
     = spec_step (rq, fs) (set (rows t), serial t)"
proof (cases rq)
  case GET_root
  then show ?thesis by simp
next
  case GET_posts
  have "db_close (SessionLocal t fs) = t" by (simp add: SessionLocal_def db_close_def)
  then show ?thesis using GET_posts
    by (simp add: split_beta get_posts_table)
next
  case (GET_post i)
  have "db_close (SessionLocal t fs) = t" by (simp add: SessionLocal_def db_close_def)
  then show ?thesis using GET_post
    by (simp add: split_beta get_post_table)
next
  case (POST_posts post)
  then show ?thesis
    by (simp add: split_beta create_post_table)
next
  case (PUT_post i post)
  show ?thesis
  proof (cases "i \<in> id_pk ` set (rows t)")
    case True
    then show ?thesis using PUT_post
      by (simp add: split_beta update_post_table)
  next
    case False
    then show ?thesis using PUT_post
      by (simp add: split_beta update_post_table update_absent_image del: if_image_distrib)
  qed
next
  case (DELETE_post i)
  show ?thesis
  proof (cases "i \<in> id_pk ` set (rows t)")
    case True
    then show ?thesis using DELETE_post
      by (simp add: split_beta delete_post_table)
  next
    case False
    then show ?thesis using DELETE_post
      by (auto simp: split_beta delete_post_table)
  qed
qed

lemma run_reflects:
  "(set (rows (snd (run history t))), serial (snd (run history t)))
     = fold spec_step history (set (rows t), serial t)"
proof (induction history arbitrary: t)
  case Nil
  then show ?case by simp
next
  case (Cons a history)
  obtain rq fs where a: "a = (rq, fs)" by (cases a)
  show ?case
    using Cons.IH[of "snd (serve rq fs t)"] serve_step[of rq fs t]
    by (simp add: a split_beta)
qed

section \<open>The claims\<close>

subsection \<open>Create, then get by the returned id\<close>

text \<open>
  Claim C1. On a well-formed table, a create whose commit and refresh go through
  answers with a row that carries the title and the content of the request, and a get
  by the id of that row, in the next request and with its query going through,
  answers with that same row.
\<close>

theorem create_then_get:
  assumes "wf_table t" and "goes_through 2 fs" and "goes_through 1 fs'"
  shows "\<exists>created db1.
     create_post post (SessionLocal t fs) = (Inr created, db1)
     \<and> PostModel.title created = Post.title post
     \<and> PostModel.content created = Post.content post
     \<and> fst (get_post (id_pk created) (SessionLocal (db_close db1) fs')) = Inr created"
proof -
  let ?new = "\<lparr>id_pk = serial t, title = Post.title post, content = Post.content post\<rparr>"
  let ?res = "create_post post (SessionLocal t fs)"
  have answer: "fst ?res = Inr ?new"
    using assms(1,2) by (simp add: create_post_answer_wf goes_through_def)
  have "goes_through 1 fs"
    using assms(2) by (cases fs rule: schedule_cases) (simp_all add: schedule_simps)
  then have table: "db_close (snd ?res) = execute (Insert (Post.title post) (Post.content post)) t"
    by (simp add: create_post_table)
  have below: "list_all (\<lambda>r. id_pk r < serial t) (rows t)"
    using assms(1) by (simp add: wf_table_def)
  have "find (\<lambda>r. id_pk r = serial t) (rows (db_close (snd ?res))) = Some ?new"
    by (simp add: table find_beyond[OF below])
  then have "fst (get_post (id_pk ?new) (SessionLocal (db_close (snd ?res)) fs')) = Inr ?new"
    using assms(3) by (simp add: get_post_answer goes_through_def)
  moreover have "?res = (Inr ?new, snd ?res)"
    using answer by (simp add: prod_eq_iff)
  ultimately show ?thesis
    by (intro exI[of _ ?new] exI[of _ "snd ?res"]) simp
qed

text \<open>The statement at a concrete table.\<close>

theorem create_then_get_witness:
  "wf_table create_all \<and> goes_through 2 [] \<and> goes_through 1 [None]
   \<and> (\<exists>created db1.
     create_post \<lparr>title = ''A'', content = ''B''\<rparr> (SessionLocal create_all []) = (Inr created, db1)
     \<and> PostModel.title created = ''A''
     \<and> PostModel.content created = ''B''
     \<and> fst (get_post (id_pk created) (SessionLocal (db_close db1) [None])) = Inr created)"
proof -
  have h1: "wf_table create_all" by (simp add: wf_table_def create_all_def)
  have h2: "goes_through 2 []" by (simp add: schedule_simps)
  have h3: "goes_through 1 [None]" by (simp add: schedule_simps)
  show ?thesis
    using h1 h2 h3 create_then_get[OF h1 h2 h3, of "\<lparr>title = ''A'', content = ''B''\<rparr>"]
    by simp
qed

subsection \<open>What list returns\<close>

text \<open>
  Claim C2. Take any history of requests served from the empty table, whatever the
  store did on the way, failures included. A list on the table that the history
  leaves, with its query going through, answers with exactly the posts created and
  not deleted (\<open>spec_live\<close>): every one of them, each once, and nothing else. The
  statement is about the set of the rows; their order is not constrained.
\<close>

theorem list_is_the_live_posts:
  assumes "goes_through 1 fs"
  shows "\<exists>posts. fst (get_posts (SessionLocal (snd (run history create_all)) fs)) = Inr posts
     \<and> set posts = spec_live history
     \<and> distinct posts
     \<and> posts = rows (snd (run history create_all))"
proof -
  let ?t = "snd (run history create_all)"
  have wf: "wf_table ?t"
    using wf_run[OF wf_create_all] by simp
  have "(set (rows ?t), serial ?t) = fold spec_step history ({}, 1)"
    using run_reflects[of history create_all] by (simp add: create_all_def)
  then have "set (rows ?t) = spec_live history"
    by (simp add: spec_live_def prod_eq_iff)
  moreover have "distinct (rows ?t)"
    using wf by (auto simp: wf_table_def distinct_map)
  moreover have "fst (get_posts (SessionLocal ?t fs)) = Inr (rows ?t)"
    using assms by (simp add: get_posts_answer goes_through_def)
  ultimately show ?thesis by simp
qed

text \<open>
  The statement at a history of a create that is answered 500 after its commit, a
  create that succeeds, a delete of an id that is not there, and a delete of the second
  post: the first post was created and is not deleted, and list returns it.
\<close>

theorem list_is_the_live_posts_witness:
  "goes_through 1 [None]
   \<and> run [(POST_posts \<lparr>title = ''A'', content = ''B''\<rparr>, [None, Some ''boom'']),
           (POST_posts \<lparr>title = ''C'', content = ''D''\<rparr>, []),
           (DELETE_post 7, []),
           (DELETE_post 2, [])] create_all
      = ([Inl (HTTPException 500 ''boom''),
          Inr (Row \<lparr>id_pk = 2, title = ''C'', content = ''D''\<rparr>),
          Inl (HTTPException 404 ''Post no encontrado''),
          Inr (Row \<lparr>id_pk = 2, title = ''C'', content = ''D''\<rparr>)],
         \<lparr>rows = [\<lparr>id_pk = 1, title = ''A'', content = ''B''\<rparr>], serial = 3\<rparr>)
   \<and> spec_live [(POST_posts \<lparr>title = ''A'', content = ''B''\<rparr>, [None, Some ''boom'']),
           (POST_posts \<lparr>title = ''C'', content = ''D''\<rparr>, []),
           (DELETE_post 7, []),
           (DELETE_post 2, [])]
      = {\<lparr>id_pk = 1, title = ''A'', content = ''B''\<rparr>}
   \<and> fst (get_posts
        (SessionLocal \<lparr>rows = [\<lparr>id_pk = 1, title = ''A'', content = ''B''\<rparr>], serial = 3\<rparr>
           [None]))
      = Inr [\<lparr>id_pk = 1, title = ''A'', content = ''B''\<rparr>]"
proof -
  let ?history = "[(POST_posts \<lparr>title = ''A'', content = ''B''\<rparr>, [None, Some ''boom'']),
           (POST_posts \<lparr>title = ''C'', content = ''D''\<rparr>, []),
           (DELETE_post 7, []),
           (DELETE_post 2, [])]"
  let ?t = "\<lparr>rows = [\<lparr>id_pk = 1, title = ''A'', content = ''B''\<rparr>], serial = 3\<rparr>"
  have h: "goes_through 1 [None]"
    by (simp add: schedule_simps)
  have r: "run ?history create_all
      = ([Inl (HTTPException 500 ''boom''),
          Inr (Row \<lparr>id_pk = 2, title = ''C'', content = ''D''\<rparr>),
          Inl (HTTPException 404 ''Post no encontrado''),
          Inr (Row \<lparr>id_pk = 2, title = ''C'', content = ''D''\<rparr>)], ?t)"
    by (simp add: create_post_def delete_post_def session_defs create_all_def)
  from list_is_the_live_posts[OF h, of ?history]
  obtain posts where p: "fst (get_posts (SessionLocal (snd (run ?history create_all)) [None]))
      = Inr posts" "set posts = spec_live ?history"
      "posts = rows (snd (run ?history create_all))"
    by blast
  have rows: "posts = [\<lparr>id_pk = 1, title = ''A'', content = ''B''\<rparr>]"
    using p(3) unfolding r by simp
  have live: "spec_live ?history = {\<lparr>id_pk = 1, title = ''A'', content = ''B''\<rparr>}"
    using p(2) by (simp add: rows)
  have "fst (get_posts (SessionLocal ?t [None])) = Inr [\<lparr>id_pk = 1, title = ''A'', content = ''B''\<rparr>]"
    using p(1) unfolding r by (simp add: rows)
  then show ?thesis
    using h r live by simp
qed

subsection \<open>Update of an id that is not there\<close>

text \<open>
  Claim C3. When no row has the id and the query goes through, update answers 404
  with the detail \<^verbatim>\<open>Post no encontrado\<close>, and the table it leaves is the table it
  found: no row inserted, changed or removed, and the sequence untouched.
\<close>

theorem update_missing_is_404_and_no_change:
  assumes "post_id \<notin> id_pk ` set (rows t)" and "goes_through 1 fs"
  shows "fst (update_post post_id post (SessionLocal t fs)) =
           Inl (HTTPException 404 ''Post no encontrado'')
     \<and> db_close (snd (update_post post_id post (SessionLocal t fs))) = t"
  using assms
  by (simp add: update_post_answer_absent update_post_table find_None_iff_ids goes_through_def)

text \<open>The statement at a concrete table.\<close>

theorem update_missing_is_404_and_no_change_witness:
  "(7::int) \<notin> id_pk ` set (rows \<lparr>rows = [\<lparr>id_pk = 1, title = ''A'', content = ''B''\<rparr>], serial = 2\<rparr>)
   \<and> goes_through 1 []
   \<and> fst (update_post 7 \<lparr>title = ''C'', content = ''D''\<rparr>
        (SessionLocal \<lparr>rows = [\<lparr>id_pk = 1, title = ''A'', content = ''B''\<rparr>], serial = 2\<rparr> [])) =
           Inl (HTTPException 404 ''Post no encontrado'')
   \<and> db_close (snd (update_post 7 \<lparr>title = ''C'', content = ''D''\<rparr>
        (SessionLocal \<lparr>rows = [\<lparr>id_pk = 1, title = ''A'', content = ''B''\<rparr>], serial = 2\<rparr> []))) =
        \<lparr>rows = [\<lparr>id_pk = 1, title = ''A'', content = ''B''\<rparr>], serial = 2\<rparr>"
proof -
  let ?t = "\<lparr>rows = [\<lparr>id_pk = 1, title = ''A'', content = ''B''\<rparr>], serial = 2\<rparr>"
  have h1: "(7::int) \<notin> id_pk ` set (rows ?t)" by simp
  have h2: "goes_through 1 []" by (simp add: schedule_simps)
  show ?thesis
    using h1 h2 update_missing_is_404_and_no_change[OF h1 h2, of "\<lparr>title = ''C'', content = ''D''\<rparr>"]
    by simp
qed

subsection \<open>Delete, then get\<close>

text \<open>
  Claim C4. When a row has the id and the query and the commit of the delete go
  through, a get by the same id on the table that the delete leaves answers 404.
\<close>

theorem delete_then_get_is_404:
  assumes "post_id \<in> id_pk ` set (rows t)" and "goes_through 2 fs" and "goes_through 1 fs'"
  shows "fst (get_post post_id
            (SessionLocal (db_close (snd (delete_post post_id (SessionLocal t fs)))) fs')) =
         Inl (HTTPException 404 ''Post no encontrado'')"
proof -
  have "db_close (snd (delete_post post_id (SessionLocal t fs))) = execute (Delete post_id) t"
    using assms(1,2) by (simp add: delete_post_table)
  moreover have "find (\<lambda>r. id_pk r = post_id) (rows (execute (Delete post_id) t)) = None"
    by (auto simp: find_None_iff_ids)
  ultimately show ?thesis
    using assms(3) by (simp add: get_post_answer goes_through_def)
qed

text \<open>The statement at a concrete table.\<close>

theorem delete_then_get_is_404_witness:
  "(1::int) \<in> id_pk ` set (rows \<lparr>rows = [\<lparr>id_pk = 1, title = ''A'', content = ''B''\<rparr>], serial = 2\<rparr>)
   \<and> goes_through 2 [None, None] \<and> goes_through 1 []
   \<and> fst (get_post 1
        (SessionLocal
           (db_close (snd (delete_post 1
              (SessionLocal \<lparr>rows = [\<lparr>id_pk = 1, title = ''A'', content = ''B''\<rparr>], serial = 2\<rparr>
                 [None, None]))))
           [])) =
       Inl (HTTPException 404 ''Post no encontrado'')"
proof -
  let ?t = "\<lparr>rows = [\<lparr>id_pk = 1, title = ''A'', content = ''B''\<rparr>], serial = 2\<rparr>"
  have h1: "(1::int) \<in> id_pk ` set (rows ?t)" by simp
  have h2: "goes_through 2 [None, None]" by (simp add: schedule_simps)
  have h3: "goes_through 1 []" by (simp add: schedule_simps)
  show ?thesis
    using h1 h2 h3 delete_then_get_is_404[OF h1 h2 h3] by simp
qed

subsection \<open>What delete answers\<close>

text \<open>
  Claim C5. On a well-formed table, a delete by the id of a row, with its query and
  its commit going through, succeeds: it answers with that row as it was in the table
  before the deletion (id, title and content), and no row with the id is left.
\<close>

theorem delete_returns_prior_row:
  assumes "wf_table t" and "row \<in> set (rows t)" and "goes_through 2 fs"
  shows "fst (delete_post (id_pk row) (SessionLocal t fs)) = Inr row
     \<and> id_pk row \<notin> id_pk ` set (rows (db_close (snd (delete_post (id_pk row) (SessionLocal t fs)))))"
proof -
  have "find (\<lambda>r. id_pk r = id_pk row) (rows t) = Some row"
    using assms(1,2) by (simp add: wf_table_def find_unique)
  then have "fst (delete_post (id_pk row) (SessionLocal t fs)) = Inr row"
    using assms(3) by (simp add: delete_post_answer_present goes_through_def)
  moreover have "db_close (snd (delete_post (id_pk row) (SessionLocal t fs))) = execute (Delete (id_pk row)) t"
    using assms(2,3) by (simp add: delete_post_table)
  ultimately show ?thesis by auto
qed

text \<open>The statement at a concrete table.\<close>

theorem delete_returns_prior_row_witness:
  "wf_table \<lparr>rows = [\<lparr>id_pk = 1, title = ''A'', content = ''B''\<rparr>,
                      \<lparr>id_pk = 2, title = ''C'', content = ''D''\<rparr>], serial = 3\<rparr>
   \<and> \<lparr>id_pk = 2, title = ''C'', content = ''D''\<rparr>
        \<in> set (rows \<lparr>rows = [\<lparr>id_pk = 1, title = ''A'', content = ''B''\<rparr>,
                                \<lparr>id_pk = 2, title = ''C'', content = ''D''\<rparr>], serial = 3\<rparr>)
   \<and> goes_through 2 []
   \<and> fst (delete_post 2
        (SessionLocal \<lparr>rows = [\<lparr>id_pk = 1, title = ''A'', content = ''B''\<rparr>,
                                \<lparr>id_pk = 2, title = ''C'', content = ''D''\<rparr>], serial = 3\<rparr> []))
       = Inr \<lparr>id_pk = 2, title = ''C'', content = ''D''\<rparr>"
proof -
  let ?t = "\<lparr>rows = [\<lparr>id_pk = 1, title = ''A'', content = ''B''\<rparr>,
                      \<lparr>id_pk = 2, title = ''C'', content = ''D''\<rparr>], serial = 3\<rparr>"
  let ?row = "\<lparr>id_pk = 2, title = ''C'', content = ''D''\<rparr>"
  have h1: "wf_table ?t" by (simp add: wf_table_def)
  have h2: "?row \<in> set (rows ?t)" by simp
  have h3: "goes_through 2 []" by (simp add: schedule_simps)
  show ?thesis
    using h1 h2 h3 delete_returns_prior_row[OF h1 h2 h3] by simp
qed

subsection \<open>Not found\<close>



subsection \<open>Store failures\<close>

text \<open>
  Claim C7, as amended. When a round trip of a create, an update or a delete raises
  an error with message \<open>msg\<close>, the handler answers 500 with \<open>msg\<close> as its detail
  and leaves nothing pending in the session. The table is as it was before the request
  whenever the error is raised by the query or by the commit, which for delete are the
  only round trips there are. (An update makes three round trips when the row is there
  and one when it is not; a delete two and one.)
\<close>

theorem store_failure_is_500_after_rollback:
  "(raised 2 fs = Some msg \<longrightarrow>
       fst (create_post post (SessionLocal t fs)) = Inl (HTTPException 500 msg)
     \<and> pending (snd (create_post post (SessionLocal t fs))) = []
     \<and> (raised 1 fs = Some msg \<longrightarrow>
          db_close (snd (create_post post (SessionLocal t fs))) = t))
   \<and> (raised (if post_id \<in> id_pk ` set (rows t) then 3 else 1) fs = Some msg \<longrightarrow>
       fst (update_post post_id post (SessionLocal t fs)) = Inl (HTTPException 500 msg)
     \<and> pending (snd (update_post post_id post (SessionLocal t fs))) = []
     \<and> (raised 2 fs = Some msg \<longrightarrow>
          db_close (snd (update_post post_id post (SessionLocal t fs))) = t))
   \<and> (raised (if post_id \<in> id_pk ` set (rows t) then 2 else 1) fs = Some msg \<longrightarrow>
       fst (delete_post post_id (SessionLocal t fs)) = Inl (HTTPException 500 msg)
     \<and> pending (snd (delete_post post_id (SessionLocal t fs))) = []
     \<and> db_close (snd (delete_post post_id (SessionLocal t fs))) = t)"
proof (intro conjI impI)
  assume "raised 2 fs = Some msg"
  then show "fst (create_post post (SessionLocal t fs)) = Inl (HTTPException 500 msg)"
    by (simp add: create_post_answer)
next
  assume "raised 1 fs = Some msg"
  then show "db_close (snd (create_post post (SessionLocal t fs))) = t"
    by (simp add: create_post_table goes_through_def)
next
  assume r: "raised (if post_id \<in> id_pk ` set (rows t) then 3 else 1) fs = Some msg"
  show "fst (update_post post_id post (SessionLocal t fs)) = Inl (HTTPException 500 msg)"
  proof (cases "find (\<lambda>r. id_pk r = post_id) (rows t)")
    case None
    then show ?thesis using r
      by (simp add: update_post_answer_absent find_None_iff_ids)
  next
    case (Some x)
    then have "post_id \<in> id_pk ` set (rows t)" using find_Some_id[OF Some] by auto
    then show ?thesis using r by (simp add: update_post_answer_present[OF Some])
  qed
next
  assume "raised 2 fs = Some msg"
  then show "db_close (snd (update_post post_id post (SessionLocal t fs))) = t"
    by (simp add: update_post_table goes_through_def)
next
  assume r: "raised (if post_id \<in> id_pk ` set (rows t) then 2 else 1) fs = Some msg"
  show "fst (delete_post post_id (SessionLocal t fs)) = Inl (HTTPException 500 msg)"
  proof (cases "find (\<lambda>r. id_pk r = post_id) (rows t)")
    case None
    then show ?thesis using r
      by (simp add: delete_post_answer_absent find_None_iff_ids)
  next
    case (Some x)
    then have "post_id \<in> id_pk ` set (rows t)" using find_Some_id[OF Some] by auto
    then show ?thesis using r by (simp add: delete_post_answer_present[OF Some])
  qed
  from r have "raised 2 fs = Some msg"
    using raised_mono[of 1 fs msg] by (simp split: if_splits add: numeral_2_eq_2)
  then show "db_close (snd (delete_post post_id (SessionLocal t fs))) = t"
    by (simp add: delete_post_table goes_through_def)
qed (simp_all add: pending_after)

text \<open>The statement where the first round trip fails.\<close>

theorem store_failure_is_500_after_rollback_witness:
  "raised 2 [Some ''boom''] = Some ''boom'' \<and> raised 1 [Some ''boom''] = Some ''boom''
   \<and> raised 3 [Some ''boom''] = Some ''boom''
   \<and> (1::int) \<in> id_pk ` set (rows \<lparr>rows = [\<lparr>id_pk = 1, title = ''A'', content = ''B''\<rparr>], serial = 2\<rparr>)
   \<and> fst (create_post \<lparr>title = ''C'', content = ''D''\<rparr>
        (SessionLocal \<lparr>rows = [\<lparr>id_pk = 1, title = ''A'', content = ''B''\<rparr>], serial = 2\<rparr> [Some ''boom'']))
       = Inl (HTTPException 500 ''boom'')
   \<and> db_close (snd (create_post \<lparr>title = ''C'', content = ''D''\<rparr>
        (SessionLocal \<lparr>rows = [\<lparr>id_pk = 1, title = ''A'', content = ''B''\<rparr>], serial = 2\<rparr> [Some ''boom''])))
       = \<lparr>rows = [\<lparr>id_pk = 1, title = ''A'', content = ''B''\<rparr>], serial = 2\<rparr>
   \<and> fst (update_post 1 \<lparr>title = ''C'', content = ''D''\<rparr>
        (SessionLocal \<lparr>rows = [\<lparr>id_pk = 1, title = ''A'', content = ''B''\<rparr>], serial = 2\<rparr> [Some ''boom'']))
       = Inl (HTTPException 500 ''boom'')
   \<and> db_close (snd (update_post 1 \<lparr>title = ''C'', content = ''D''\<rparr>
        (SessionLocal \<lparr>rows = [\<lparr>id_pk = 1, title = ''A'', content = ''B''\<rparr>], serial = 2\<rparr> [Some ''boom''])))
       = \<lparr>rows = [\<lparr>id_pk = 1, title = ''A'', content = ''B''\<rparr>], serial = 2\<rparr>
   \<and> fst (delete_post 1
        (SessionLocal \<lparr>rows = [\<lparr>id_pk = 1, title = ''A'', content = ''B''\<rparr>], serial = 2\<rparr> [Some ''boom'']))
       = Inl (HTTPException 500 ''boom'')
   \<and> db_close (snd (delete_post 1
        (SessionLocal \<lparr>rows = [\<lparr>id_pk = 1, title = ''A'', content = ''B''\<rparr>], serial = 2\<rparr> [Some ''boom''])))
       = \<lparr>rows = [\<lparr>id_pk = 1, title = ''A'', content = ''B''\<rparr>], serial = 2\<rparr>"
proof -
  let ?t = "\<lparr>rows = [\<lparr>id_pk = 1, title = ''A'', content = ''B''\<rparr>], serial = 2\<rparr>"
  have h: "raised 2 [Some ''boom''] = Some ''boom''" "raised 1 [Some ''boom''] = Some ''boom''"
    "raised 3 [Some ''boom''] = Some ''boom''"
    by (simp_all add: schedule_simps)
  have p: "(1::int) \<in> id_pk ` set (rows ?t)" by simp
  note inst = store_failure_is_500_after_rollback[of "[Some ''boom'']" "''boom''"
      "\<lparr>title = ''C'', content = ''D''\<rparr>" ?t 1]
  show ?thesis
    using h p inst by simp
qed

text \<open>
  The claim as first stated, with the table unchanged after every store failure, does
  not hold: when the commit of a create goes through and the refresh that follows
  raises, the answer is a 500 and the row is in the table.
\<close>

theorem refresh_failure_keeps_the_write:
  "raised 2 [None, Some ''boom''] = Some ''boom''
   \<and> fst (create_post \<lparr>title = ''A'', content = ''B''\<rparr>
          (SessionLocal create_all [None, Some ''boom''])) = Inl (HTTPException 500 ''boom'')
   \<and> db_close (snd (create_post \<lparr>title = ''A'', content = ''B''\<rparr>
          (SessionLocal create_all [None, Some ''boom''])))
       = \<lparr>rows = [\<lparr>id_pk = 1, title = ''A'', content = ''B''\<rparr>], serial = 2\<rparr>
   \<and> db_close (snd (create_post \<lparr>title = ''A'', content = ''B''\<rparr>
          (SessionLocal create_all [None, Some ''boom''])))
       \<noteq> create_all"
  by (simp add: create_post_def session_defs create_all_def schedule_simps)

subsection \<open>The frame of update\<close>

text \<open>
  Claim C8. After an update that succeeded, the answer is the row with the id
  asked for and the title and content of the request; the table has as many rows as
  before, in the same places and with the same ids; every row with another id is as it
  was; the rows with the id carry the new title and content; the sequence is
  untouched.
\<close>

theorem update_changes_only_title_and_content:
  assumes "update_post post_id post (SessionLocal t fs) = (Inr updated, db1)"
  shows "updated = \<lparr>id_pk = post_id, title = Post.title post, content = Post.content post\<rparr>
     \<and> serial (db_close db1) = serial t
     \<and> length (rows (db_close db1)) = length (rows t)
     \<and> (\<forall>k < length (rows t).
           id_pk (rows (db_close db1) ! k) = id_pk (rows t ! k)
         \<and> (id_pk (rows t ! k) \<noteq> post_id \<longrightarrow> rows (db_close db1) ! k = rows t ! k)
         \<and> (id_pk (rows t ! k) = post_id \<longrightarrow>
              PostModel.title (rows (db_close db1) ! k) = Post.title post
            \<and> PostModel.content (rows (db_close db1) ! k) = Post.content post))"
proof (cases "find (\<lambda>r. id_pk r = post_id) (rows t)")
  case None
  then have "\<not> (\<exists>x. fst (update_post post_id post (SessionLocal t fs)) = Inr x)"
    by (simp add: update_post_answer_absent split: option.splits)
  then show ?thesis using assms by simp
next
  case (Some r)
  have k: "id_pk r = post_id" and "post_id \<in> id_pk ` set (rows t)"
    using find_Some_id[OF Some] by auto
  from assms have ans: "fst (update_post post_id post (SessionLocal t fs)) = Inr updated"
    and db1: "db1 = snd (update_post post_id post (SessionLocal t fs))" by simp_all
  from ans have g3: "raised 3 fs = None"
    and upd: "updated = r\<lparr>PostModel.title := Post.title post, PostModel.content := Post.content post\<rparr>"
    by (auto simp: update_post_answer_present[OF Some] split: option.splits)
  have "goes_through 2 fs"
    using g3 by (cases fs rule: schedule_cases) (simp_all add: schedule_simps)
  then have tab: "db_close db1 = execute (Update post_id (Post.title post) (Post.content post)) t"
    using \<open>post_id \<in> id_pk ` set (rows t)\<close> by (simp add: db1 update_post_table)
  have "updated = \<lparr>id_pk = post_id, title = Post.title post, content = Post.content post\<rparr>"
    using upd k by (cases r) simp
  then show ?thesis
    by (simp add: tab)
qed

text \<open>The statement at a concrete table.\<close>

theorem update_changes_only_title_and_content_witness:
  "update_post 1 \<lparr>title = ''X'', content = ''Y''\<rparr>
     (SessionLocal \<lparr>rows = [\<lparr>id_pk = 1, title = ''A'', content = ''B''\<rparr>,
                             \<lparr>id_pk = 2, title = ''C'', content = ''D''\<rparr>], serial = 3\<rparr> [])
   = (Inr \<lparr>id_pk = 1, title = ''X'', content = ''Y''\<rparr>,
      SessionLocal \<lparr>rows = [\<lparr>id_pk = 1, title = ''X'', content = ''Y''\<rparr>,
                             \<lparr>id_pk = 2, title = ''C'', content = ''D''\<rparr>], serial = 3\<rparr> [])
   \<and> rows (db_close (SessionLocal \<lparr>rows = [\<lparr>id_pk = 1, title = ''X'', content = ''Y''\<rparr>,
                             \<lparr>id_pk = 2, title = ''C'', content = ''D''\<rparr>], serial = 3\<rparr> [])) ! 1
       = \<lparr>id_pk = 2, title = ''C'', content = ''D''\<rparr>"
proof -
  let ?t = "\<lparr>rows = [\<lparr>id_pk = 1, title = ''A'', content = ''B''\<rparr>,
                      \<lparr>id_pk = 2, title = ''C'', content = ''D''\<rparr>], serial = 3\<rparr>"
  let ?t' = "\<lparr>rows = [\<lparr>id_pk = 1, title = ''X'', content = ''Y''\<rparr>,
                      \<lparr>id_pk = 2, title = ''C'', content = ''D''\<rparr>], serial = 3\<rparr>"
  have h: "update_post 1 \<lparr>title = ''X'', content = ''Y''\<rparr> (SessionLocal ?t [])
     = (Inr \<lparr>id_pk = 1, title = ''X'', content = ''Y''\<rparr>, SessionLocal ?t' [])"
    by (simp add: update_post_def session_defs)
  have "rows (db_close (SessionLocal ?t' [])) ! 1 = rows ?t ! 1"
    using update_changes_only_title_and_content[OF h] by simp
  then show ?thesis
    using h by simp
qed

subsection \<open>Who chooses the id\<close>

text \<open>
  Claim C9. The body of a create is a \<open>Post\<close>: a title and a content, and no id.
  The id of the created row is the next value of the table's sequence, so two creates
  on the same table get the same id whatever their bodies are, and the row that
  reaches the table carries that id.
\<close>

theorem create_id_from_store:
  assumes "create_post post (SessionLocal t fs) = (Inr created, db1)"
    and "create_post post' (SessionLocal t fs') = (Inr created', db1')"
  shows "id_pk created = serial t \<and> id_pk created' = id_pk created
     \<and> rows (db_close db1) =
         rows t @ [\<lparr>id_pk = serial t, title = Post.title post, content = Post.content post\<rparr>]"
proof -
  have key: "id_pk x = serial t"
    if "fst (create_post p (SessionLocal t g)) = Inr x" for p g x
    using that find_Some_id
    by (fastforce simp: create_post_answer split: option.splits)
  from assms(1) have "fst (create_post post (SessionLocal t fs)) = Inr created"
    and db1: "db1 = snd (create_post post (SessionLocal t fs))" by simp_all
  then have "raised 2 fs = None"
    by (auto simp: create_post_answer split: option.splits)
  then have "goes_through 1 fs"
    by (cases fs rule: schedule_cases) (simp_all add: schedule_simps)
  then have "db_close db1 = execute (Insert (Post.title post) (Post.content post)) t"
    by (simp add: db1 create_post_table)
  moreover have "id_pk created = serial t" "id_pk created' = serial t"
    using key assms by (metis fst_conv)+
  ultimately show ?thesis by simp
qed

text \<open>The statement at a concrete table.\<close>

theorem create_id_from_store_witness:
  "create_post \<lparr>title = ''A'', content = ''B''\<rparr> (SessionLocal create_all [])
     = (Inr \<lparr>id_pk = 1, title = ''A'', content = ''B''\<rparr>,
        SessionLocal \<lparr>rows = [\<lparr>id_pk = 1, title = ''A'', content = ''B''\<rparr>], serial = 2\<rparr> [])
   \<and> create_post \<lparr>title = ''C'', content = ''D''\<rparr> (SessionLocal create_all [None])
     = (Inr \<lparr>id_pk = 1, title = ''C'', content = ''D''\<rparr>,
        SessionLocal \<lparr>rows = [\<lparr>id_pk = 1, title = ''C'', content = ''D''\<rparr>], serial = 2\<rparr> [])
   \<and> id_pk \<lparr>id_pk = 1, title = ''C'', content = ''D''\<rparr> = serial create_all"
proof -
  have h1: "create_post \<lparr>title = ''A'', content = ''B''\<rparr> (SessionLocal create_all [])
     = (Inr \<lparr>id_pk = 1, title = ''A'', content = ''B''\<rparr>,
        SessionLocal \<lparr>rows = [\<lparr>id_pk = 1, title = ''A'', content = ''B''\<rparr>], serial = 2\<rparr> [])"
    by (simp add: create_post_def session_defs create_all_def)
  have h2: "create_post \<lparr>title = ''C'', content = ''D''\<rparr> (SessionLocal create_all [None])
     = (Inr \<lparr>id_pk = 1, title = ''C'', content = ''D''\<rparr>,
        SessionLocal \<lparr>rows = [\<lparr>id_pk = 1, title = ''C'', content = ''D''\<rparr>], serial = 2\<rparr> [])"
    by (simp add: create_post_def session_defs create_all_def)
  have "id_pk \<lparr>id_pk = 1, title = ''C'', content = ''D''\<rparr> = serial create_all"
    using create_id_from_store[OF h1 h2] by simp
  then show ?thesis
    using h1 h2 by simp
qed

subsection \<open>Reads leave the table alone\<close>

text \<open>
  Claim C10. The root route, list and get by id leave the table as they found it,
  for every table, every id and every schedule of failures, hence on the success,
  the not-found and the error path alike. The same holds of the two handlers in any
  session.
\<close>

theorem reads_leave_table:
  "snd (serve GET_root fs t) = t
   \<and> snd (serve GET_posts fs t) = t
   \<and> snd (serve (GET_post post_id) fs t) = t
   \<and> db_close (snd (get_posts db)) = db_close db
   \<and> db_close (snd (get_post post_id db)) = db_close db"
proof -
  have "db_close (SessionLocal t fs) = t"
    by (simp add: SessionLocal_def db_close_def)
  then show ?thesis
    by (simp add: get_posts_table get_post_table split_beta)
qed

end
